theory Spec2Isabelle
  imports Main "HOL-Library.Sublist"
begin

section \<open>Template options of text/template (option.go)\<close>

subsection \<open>The option values\<close>

text \<open>
  \<^verbatim>\<open>type missingKeyAction int\<close> with the constants \<^verbatim>\<open>mapInvalid\<close>, \<^verbatim>\<open>mapZeroValue\<close>,
  \<^verbatim>\<open>mapError\<close> numbered by \<^verbatim>\<open>iota\<close> from 0, and \<^verbatim>\<open>type onPanicAction int\<close> with
  \<^verbatim>\<open>panicRecover\<close>, \<^verbatim>\<open>panicNop\<close>. The values written are 0, 1 and 2 only, so the
  width of Go's \<^verbatim>\<open>int\<close> plays no part.
\<close>

type_synonym missingKeyAction = int

definition mapInvalid :: missingKeyAction where
  "mapInvalid = 0"

definition mapZeroValue :: missingKeyAction where
  "mapZeroValue = 1"

definition mapError :: missingKeyAction where
  "mapError = 2"

type_synonym onPanicAction = int

definition panicRecover :: onPanicAction where
  "panicRecover = 0"

definition panicNop :: onPanicAction where
  "panicNop = 1"

text \<open>
  \<^verbatim>\<open>type option struct\<close> is declared twice in the file; the second declaration, with both
  fields, is the one \<^verbatim>\<open>setOption\<close> writes to. The record is named \<open>option_t\<close>, since
  \<open>option\<close> is a type of HOL.
\<close>

record option_t =
  missingKey :: missingKeyAction
  onPanic :: onPanicAction

subsection \<open>Templates, references and the heap\<close>

text \<open>
  Modelled from the spec: the declaration of \<^verbatim>\<open>Template\<close> is not in option.go, which
  reaches the options as \<^verbatim>\<open>t.option\<close> through the pointer \<^verbatim>\<open>t\<close>. The spec gives every
  template exactly one store of its own, created when the template is initialised. So a
  template has the field \<open>option\<close>, absent (\<open>None\<close>) until \<^verbatim>\<open>init\<close> has run; its other
  fields are the extension part of the record. Methods have pointer receivers, so
  templates live in a heap and \<^verbatim>\<open>t\<close> is a reference into it.
\<close>

record Template =
  option :: "option_t option"

type_synonym ref = nat

type_synonym 'a heap = "ref \<rightharpoonup> 'a Template_scheme"

text \<open>
  \<^verbatim>\<open>panic\<close> with its message, and the run-time panic of an access through a nil pointer.
  The heap is returned next to the outcome, since a panic leaves every earlier write in
  place.
\<close>

datatype error = Panic string | NilDereference

text \<open>
  Modelled from the spec: the store a template gets when it is initialised, which no code
  of option.go creates. A Go struct created without field values holds the zero value of
  every field, which for the two \<^verbatim>\<open>int\<close> types is 0.
\<close>

definition zero_option :: option_t where
  "zero_option = \<lparr>missingKey = 0, onPanic = 0\<rparr>"

text \<open>
  Modelled from the spec: \<^verbatim>\<open>Template.init\<close> is called by \<^verbatim>\<open>Option\<close> and is not in option.go.
  The spec has it ensure that the store exists before any option string is processed:
  it creates the store of a template that has none and leaves an existing store alone.
\<close>

definition init :: "ref \<Rightarrow> 'a heap \<Rightarrow> (error + unit) \<times> 'a heap" where
  "init t h =
     (case h t of
        None \<Rightarrow> (Inl NilDereference, h)
      | Some T \<Rightarrow>
          (case option T of
             None \<Rightarrow> (Inr (), h(t \<mapsto> T\<lparr>option := Some zero_option\<rparr>))
           | Some opts \<Rightarrow> (Inr (), h)))"

text \<open>
  The read of \<^verbatim>\<open>t.option\<close>, and the assignment to one of its fields as \<^verbatim>\<open>setOption\<close>
  makes it (\<open>f\<close> is the field update). Both go through \<^verbatim>\<open>t\<close> and through the store.
\<close>

definition load_option :: "ref \<Rightarrow> 'a heap \<Rightarrow> error + option_t" where
  "load_option t h =
     (case h t of
        None \<Rightarrow> Inl NilDereference
      | Some T \<Rightarrow>
          (case option T of
             None \<Rightarrow> Inl NilDereference
           | Some opts \<Rightarrow> Inr opts))"

definition store_option :: "ref \<Rightarrow> (option_t \<Rightarrow> option_t) \<Rightarrow> 'a heap \<Rightarrow> (error + unit) \<times> 'a heap" where
  "store_option t f h =
     (case h t of
        None \<Rightarrow> (Inl NilDereference, h)
      | Some T \<Rightarrow>
          (case option T of
             None \<Rightarrow> (Inl NilDereference, h)
           | Some opts \<Rightarrow> (Inr (), h(t \<mapsto> T\<lparr>option := Some (f opts)\<rparr>))))"

subsection \<open>strings.Cut\<close>

text \<open>
  Modelled from the spec: \<^verbatim>\<open>strings.Index\<close> is not in option.go. It is the position of the
  first occurrence of the separator, if there is one.
\<close>

fun Index :: "string \<Rightarrow> string \<Rightarrow> nat option" where
  "Index [] sep = (if sep = [] then Some 0 else None)"
| "Index (c # cs) sep =
     (if prefix sep (c # cs) then Some 0 else map_option Suc (Index cs sep))"

text \<open>
  Modelled from the spec: \<^verbatim>\<open>strings.Cut\<close> is not in option.go. The spec has each option
  string split at the first \<^verbatim>\<open>=\<close> into the key before it and the value after it, and a
  string without \<^verbatim>\<open>=\<close> reported as not split.
\<close>

definition Cut :: "string \<Rightarrow> string \<Rightarrow> string \<times> string \<times> bool" where
  "Cut s sep =
     (case Index s sep of
        None \<Rightarrow> (s, [], False)
      | Some i \<Rightarrow> (take i s, drop (i + length sep) s, True))"

subsection \<open>setOption and Option\<close>

text \<open>
  \<^verbatim>\<open>setOption\<close>: the empty string panics first; then the string is cut at \<^verbatim>\<open>=\<close> and the two
  nested switches on key and value either assign and return, or fall out to the panic at
  the end of the function.
\<close>

definition setOption :: "ref \<Rightarrow> string \<Rightarrow> 'a heap \<Rightarrow> (error + unit) \<times> 'a heap" where
  "setOption t opt h =
     (if opt = [] then (Inl (Panic ''empty option string''), h)
      else
        (let unrecognized = (Inl (Panic (''unrecognized option: '' @ opt)), h) in
         case Cut opt ''='' of
           (key, value, ok) \<Rightarrow>
             if ok then
               if key = ''missingkey'' then
                 if value = ''invalid'' \<or> value = ''default''
                   then store_option t (\<lambda>opts. opts\<lparr>missingKey := mapInvalid\<rparr>) h
                 else if value = ''zero''
                   then store_option t (\<lambda>opts. opts\<lparr>missingKey := mapZeroValue\<rparr>) h
                 else if value = ''error''
                   then store_option t (\<lambda>opts. opts\<lparr>missingKey := mapError\<rparr>) h
                 else unrecognized
               else if key = ''onpanic'' then
                 if value = ''recover''
                   then store_option t (\<lambda>opts. opts\<lparr>onPanic := panicRecover\<rparr>) h
                 else if value = ''nop''
                   then store_option t (\<lambda>opts. opts\<lparr>onPanic := panicNop\<rparr>) h
                 else unrecognized
               else unrecognized
             else unrecognized))"

text \<open>The loop of \<^verbatim>\<open>Option\<close> over its arguments: a panic of \<^verbatim>\<open>setOption\<close> ends it.\<close>

fun setOptions :: "ref \<Rightarrow> string list \<Rightarrow> 'a heap \<Rightarrow> (error + unit) \<times> 'a heap" where
  "setOptions t [] h = (Inr (), h)"
| "setOptions t (s # ss) h =
     (case setOption t s h of
        (Inl e, h') \<Rightarrow> (Inl e, h')
      | (Inr u, h') \<Rightarrow> setOptions t ss h')"

text \<open>\<^verbatim>\<open>Option\<close>: \<^verbatim>\<open>init\<close>, the loop, and \<^verbatim>\<open>return t\<close>.\<close>

definition Option :: "ref \<Rightarrow> string list \<Rightarrow> 'a heap \<Rightarrow> (error + ref) \<times> 'a heap" where
  "Option t opt h =
     (case init t h of
        (Inl e, h') \<Rightarrow> (Inl e, h')
      | (Inr u, h') \<Rightarrow>
          (case setOptions t opt h' of
             (Inl e, h'') \<Rightarrow> (Inl e, h'')
           | (Inr u', h'') \<Rightarrow> (Inr t, h'')))"

text \<open>
  The reads \<^verbatim>\<open>t.option.missingKey\<close> and \<^verbatim>\<open>t.option.onPanic\<close>, as the execution of a
  template makes them.
\<close>

definition get_missingKey :: "ref \<Rightarrow> 'a heap \<Rightarrow> error + missingKeyAction" where
  "get_missingKey t h = map_sum id missingKey (load_option t h)"

definition get_onPanic :: "ref \<Rightarrow> 'a heap \<Rightarrow> error + onPanicAction" where
  "get_onPanic t h = map_sum id onPanic (load_option t h)"

subsection \<open>The table of recognised options\<close>

text \<open>
  The table of the specification (and of the doc comment of \<^verbatim>\<open>Option\<close>), written as data
  to compare \<^verbatim>\<open>setOption\<close> with: each recognised option string with the assignment it
  stands for.
\<close>

definition option_table :: "(string \<times> (option_t \<Rightarrow> option_t)) list" where
  "option_table =
     [(''missingkey=invalid'', \<lambda>opts. opts\<lparr>missingKey := mapInvalid\<rparr>),
      (''missingkey=default'', \<lambda>opts. opts\<lparr>missingKey := mapInvalid\<rparr>),
      (''missingkey=zero'', \<lambda>opts. opts\<lparr>missingKey := mapZeroValue\<rparr>),
      (''missingkey=error'', \<lambda>opts. opts\<lparr>missingKey := mapError\<rparr>),
      (''onpanic=recover'', \<lambda>opts. opts\<lparr>onPanic := panicRecover\<rparr>),
      (''onpanic=nop'', \<lambda>opts. opts\<lparr>onPanic := panicNop\<rparr>)]"

definition recognized_options :: "string list" where
  "recognized_options = map fst option_table"

definition missingkey_options :: "string list" where
  "missingkey_options =
     [''missingkey=invalid'', ''missingkey=default'', ''missingkey=zero'', ''missingkey=error'']"

definition onpanic_options :: "string list" where
  "onpanic_options = [''onpanic=recover'', ''onpanic=nop'']"

definition table_effect :: "string \<Rightarrow> option_t \<Rightarrow> option_t" where
  "table_effect s = (case map_of option_table s of None \<Rightarrow> id | Some f \<Rightarrow> f)"

text \<open>The values the two fields are declared to range over.\<close>

definition valid_option :: "option_t \<Rightarrow> bool" where
  "valid_option opts \<longleftrightarrow>
     missingKey opts \<in> {mapInvalid, mapZeroValue, mapError} \<and>
     onPanic opts \<in> {panicRecover, panicNop}"

text \<open>The options of a template once \<^verbatim>\<open>init\<close> has run on it.\<close>

definition initial_option :: "'a Template_scheme \<Rightarrow> option_t" where
  "initial_option T = (case option T of None \<Rightarrow> zero_option | Some opts \<Rightarrow> opts)"

section \<open>Properties\<close>

subsection \<open>Cutting at a one-character separator\<close>

lemma Index_not_mem: "c \<notin> set s \<Longrightarrow> Index s [c] = None"
  by (induction s) auto

lemma Index_append: "c \<notin> set k \<Longrightarrow> Index (k @ c # v) [c] = Some (length k)"
  by (induction k) auto

lemma Index_Some:
  "Index s [c] = Some i \<Longrightarrow> s = take i s @ c # drop (Suc i) s \<and> c \<notin> set (take i s)"
proof (induction s arbitrary: i)
  case Nil
  then show ?case by simp
next
  case (Cons a s)
  show ?case
  proof (cases "a = c")
    case True
    with Cons.prems show ?thesis by simp
  next
    case False
    with Cons.prems obtain j where j: "Index s [c] = Some j" "i = Suc j"
      by auto
    from Cons.IH [OF j(1)] False j(2) show ?thesis by simp
  qed
qed

lemma Cut_no_sep: "c \<notin> set s \<Longrightarrow> Cut s [c] = (s, [], False)"
  by (simp add: Cut_def Index_not_mem)

lemma Cut_append: "c \<notin> set k \<Longrightarrow> Cut (k @ c # v) [c] = (k, v, True)"
  by (simp add: Cut_def Index_append)

lemma Cut_found: "Cut s [c] = (k, v, True) \<Longrightarrow> s = k @ c # v"
  by (auto simp: Cut_def split: option.splits dest: Index_Some)

lemma Cut_key_value:
  "\<exists>k v. Cut (key @ c # val) [c] = (k, v, True) \<and> (k = key \<and> v = val \<or> c \<in> set v)"
proof (cases "c \<in> set key")
  case False
  then show ?thesis by (simp add: Cut_append)
next
  case True
  then obtain k1 k2 where "key = k1 @ c # k2" and "c \<notin> set k1"
    by (auto dest: split_list_first)
  then have "Cut (key @ c # val) [c] = (k1, k2 @ c # val, True)"
    using Cut_append [of c k1 "k2 @ c # val"] by simp
  then show ?thesis by simp
qed

subsection \<open>\<^verbatim>\<open>setOption\<close> against the table\<close>

lemma Cut_missingkey:
  "Cut (''missingkey='' @ v) ''='' = (''missingkey'', v, True)"
  using Cut_append [of "CHR ''=''" "''missingkey''" v] by simp

lemma Cut_onpanic:
  "Cut (''onpanic='' @ v) ''='' = (''onpanic'', v, True)"
  using Cut_append [of "CHR ''=''" "''onpanic''" v] by simp

lemma setOption_missingkey:
  "setOption t (''missingkey='' @ v) h =
     (if v = ''invalid'' \<or> v = ''default''
        then store_option t (\<lambda>opts. opts\<lparr>missingKey := mapInvalid\<rparr>) h
      else if v = ''zero''
        then store_option t (\<lambda>opts. opts\<lparr>missingKey := mapZeroValue\<rparr>) h
      else if v = ''error''
        then store_option t (\<lambda>opts. opts\<lparr>missingKey := mapError\<rparr>) h
      else (Inl (Panic (''unrecognized option: '' @ ''missingkey='' @ v)), h))"
  unfolding setOption_def Cut_missingkey by (simp add: Let_def)

lemma setOption_onpanic:
  "setOption t (''onpanic='' @ v) h =
     (if v = ''recover''
        then store_option t (\<lambda>opts. opts\<lparr>onPanic := panicRecover\<rparr>) h
      else if v = ''nop''
        then store_option t (\<lambda>opts. opts\<lparr>onPanic := panicNop\<rparr>) h
      else (Inl (Panic (''unrecognized option: '' @ ''onpanic='' @ v)), h))"
  unfolding setOption_def Cut_onpanic by (simp add: Let_def)

lemma setOption_recognized:
  assumes "(s, f) \<in> set option_table"
  shows "setOption t s h = store_option t f h"
proof -
  from assms have
    "(s, f) = (''missingkey='' @ ''invalid'', \<lambda>opts. opts\<lparr>missingKey := mapInvalid\<rparr>) \<or>
     (s, f) = (''missingkey='' @ ''default'', \<lambda>opts. opts\<lparr>missingKey := mapInvalid\<rparr>) \<or>
     (s, f) = (''missingkey='' @ ''zero'', \<lambda>opts. opts\<lparr>missingKey := mapZeroValue\<rparr>) \<or>
     (s, f) = (''missingkey='' @ ''error'', \<lambda>opts. opts\<lparr>missingKey := mapError\<rparr>) \<or>
     (s, f) = (''onpanic='' @ ''recover'', \<lambda>opts. opts\<lparr>onPanic := panicRecover\<rparr>) \<or>
     (s, f) = (''onpanic='' @ ''nop'', \<lambda>opts. opts\<lparr>onPanic := panicNop\<rparr>)"
    unfolding option_table_def by (simp only: set_simps insert_iff empty_iff append.simps simp_thms)
  then show ?thesis
    by (elim disjE; simp only: prod.inject; elim conjE; simp only: setOption_missingkey setOption_onpanic; simp)
qed

lemma setOption_unrecognized:
  assumes "s \<notin> set recognized_options"
  shows "setOption t s h =
    (Inl (Panic (if s = [] then ''empty option string'' else ''unrecognized option: '' @ s)), h)"
proof (cases "Cut s ''=''")
  case (fields k v ok)
  show ?thesis
  proof (cases ok)
    case True
    with fields have "s = k @ CHR ''='' # v" by (simp add: Cut_found)
    with assms have "\<not> (k = ''missingkey'' \<and> v \<in> {''invalid'', ''default'', ''zero'', ''error''})"
      and "\<not> (k = ''onpanic'' \<and> v \<in> {''recover'', ''nop''})"
      by (auto simp: recognized_options_def option_table_def)
    with fields show ?thesis by (auto simp: setOption_def Let_def)
  next
    case False
    with fields show ?thesis by (simp add: setOption_def Let_def)
  qed
qed

lemma setOption_table_effect:
  assumes "s \<in> set recognized_options"
  shows "setOption t s h = store_option t (table_effect s) h"
proof -
  from assms have "map_of option_table s \<noteq> None"
    by (simp add: recognized_options_def map_of_eq_None_iff)
  then obtain f where f: "map_of option_table s = Some f" by blast
  then have "(s, f) \<in> set option_table" by (rule map_of_SomeD)
  then have "setOption t s h = store_option t f h" by (rule setOption_recognized)
  with f show ?thesis by (simp add: table_effect_def)
qed

subsection \<open>Loads and stores on the heap\<close>

lemma store_option_loaded:
  assumes "load_option t h = Inr opts"
  shows "fst (store_option t f h) = Inr ()"
    and "load_option t (snd (store_option t f h)) = Inr (f opts)"
  using assms by (auto simp: load_option_def store_option_def split: option.splits)

lemma store_option_loadedE:
  assumes "load_option t h = Inr opts"
  obtains h' where "store_option t f h = (Inr (), h')" and "load_option t h' = Inr (f opts)"
  using store_option_loaded [OF assms, of f] by (cases "store_option t f h") auto

lemma store_option_compose:
  assumes "load_option t h = Inr opts"
  shows "store_option t g (snd (store_option t f h)) = store_option t (\<lambda>x. g (f x)) h"
  using assms by (auto simp: load_option_def store_option_def split: option.splits)

lemma store_option_same:
  assumes "load_option t h = Inr opts"
  shows "store_option t (\<lambda>x. x) h = (Inr (), h)"
  using assms by (auto simp: load_option_def store_option_def split: option.splits)

lemma store_option_frame: "r \<noteq> t \<Longrightarrow> snd (store_option t f h) r = h r"
  by (simp add: store_option_def split: option.splits)

lemma init_live:
  assumes "h t = Some T"
  shows "fst (init t h) = Inr ()"
    and "load_option t (snd (init t h)) = Inr (initial_option T)"
  using assms by (auto simp: init_def load_option_def initial_option_def split: option.splits)

lemma init_liveE:
  assumes "h t = Some T"
  obtains h' where "init t h = (Inr (), h')" and "load_option t h' = Inr (initial_option T)"
  using init_live [of h t T] assms by (cases "init t h") auto

lemma init_loaded: "load_option t h = Inr opts \<Longrightarrow> init t h = (Inr (), h)"
  by (auto simp: init_def load_option_def split: option.splits)

lemma init_frame: "r \<noteq> t \<Longrightarrow> snd (init t h) r = h r"
  by (simp add: init_def split: option.splits)

subsection \<open>Sequences of options\<close>

lemma setOptions_append:
  "setOptions t (xs @ ys) h =
     (case setOptions t xs h of
        (Inl e, h') \<Rightarrow> (Inl e, h')
      | (Inr u, h') \<Rightarrow> setOptions t ys h')"
  by (induction xs arbitrary: h) (auto split: prod.splits sum.splits)

lemma setOptions_recognized:
  assumes "set ss \<subseteq> set recognized_options" and "load_option t h = Inr opts"
  shows "setOptions t ss h = store_option t (fold table_effect ss) h"
  using assms
proof (induction ss arbitrary: h opts)
  case Nil
  then show ?case by (simp add: store_option_same id_def)
next
  case (Cons s ss)
  from Cons.prems have s: "setOption t s h = store_option t (table_effect s) h"
    by (simp add: setOption_table_effect)
  from Cons.prems(2) obtain h' where h': "store_option t (table_effect s) h = (Inr (), h')"
    and ld: "load_option t h' = Inr (table_effect s opts)"
    by (rule store_option_loadedE)
  from s h' have "setOptions t (s # ss) h = setOptions t ss h'"
    by simp
  also from Cons.prems ld have "\<dots> = store_option t (fold table_effect ss) h'"
    by (intro Cons.IH) simp_all
  also from store_option_compose [OF Cons.prems(2), of "fold table_effect ss" "table_effect s"] h'
  have "\<dots> = store_option t (\<lambda>x. fold table_effect ss (table_effect s x)) h"
    by simp
  finally show ?case by (simp add: comp_def)
qed

lemma Option_live:
  assumes "h t = Some T"
  shows "Option t ss h =
     (case setOptions t ss (snd (init t h)) of
        (Inl e, h') \<Rightarrow> (Inl e, h')
      | (Inr u, h') \<Rightarrow> (Inr t, h'))"
proof -
  from assms obtain h' where "init t h = (Inr (), h')" by (rule init_liveE)
  then show ?thesis by (simp add: Option_def)
qed

lemma Option_recognized:
  assumes "h t = Some T" and "set ss \<subseteq> set recognized_options"
  shows "Option t ss h = (Inr t, snd (store_option t (fold table_effect ss) (snd (init t h))))"
    and "load_option t (snd (Option t ss h)) = Inr (fold table_effect ss (initial_option T))"
proof -
  from assms(1) have ld: "load_option t (snd (init t h)) = Inr (initial_option T)"
    by (rule init_live(2))
  from ld obtain h' where h': "store_option t (fold table_effect ss) (snd (init t h)) = (Inr (), h')"
    and ld': "load_option t h' = Inr (fold table_effect ss (initial_option T))"
    by (rule store_option_loadedE)
  from assms(2) ld have "setOptions t ss (snd (init t h)) =
      store_option t (fold table_effect ss) (snd (init t h))"
    by (rule setOptions_recognized)
  with h' have "Option t ss h = (Inr t, h')"
    using assms(1) by (simp add: Option_live)
  with h' ld' show "Option t ss h = (Inr t, snd (store_option t (fold table_effect ss) (snd (init t h))))"
    and "load_option t (snd (Option t ss h)) = Inr (fold table_effect ss (initial_option T))"
    by simp_all
qed

lemma Option_stops:
  assumes "h t = Some T" and "set pre \<subseteq> set recognized_options"
    and "bad \<notin> set recognized_options"
  shows "Option t (pre @ bad # rest) h =
     (Inl (Panic (if bad = [] then ''empty option string'' else ''unrecognized option: '' @ bad)),
      snd (Option t pre h))"
proof -
  from assms(1) have ld: "load_option t (snd (init t h)) = Inr (initial_option T)"
    by (rule init_live(2))
  from ld obtain h' where h': "store_option t (fold table_effect pre) (snd (init t h)) = (Inr (), h')"
    by (rule store_option_loadedE)
  from assms(2) ld have "setOptions t pre (snd (init t h)) =
      store_option t (fold table_effect pre) (snd (init t h))"
    by (rule setOptions_recognized)
  with h' have pre: "setOptions t pre (snd (init t h)) = (Inr (), h')"
    by simp
  with assms(1) have "Option t pre h = (Inr t, h')"
    by (simp add: Option_live)
  with pre assms(1) show ?thesis
    by (simp add: Option_live setOptions_append setOption_unrecognized [OF assms(3)])
qed

subsection \<open>The effects of the table\<close>

lemma recognized_options_eq:
  "recognized_options =
     [''missingkey=invalid'', ''missingkey=default'', ''missingkey=zero'', ''missingkey=error'',
      ''onpanic=recover'', ''onpanic=nop'']"
  by (simp add: recognized_options_def option_table_def)

lemma recognized_options_split: "recognized_options = missingkey_options @ onpanic_options"
  by (simp add: recognized_options_eq missingkey_options_def onpanic_options_def)

lemma table_effect_simps:
  "table_effect ''missingkey=invalid'' = (\<lambda>opts. opts\<lparr>missingKey := mapInvalid\<rparr>)"
  "table_effect ''missingkey=default'' = (\<lambda>opts. opts\<lparr>missingKey := mapInvalid\<rparr>)"
  "table_effect ''missingkey=zero'' = (\<lambda>opts. opts\<lparr>missingKey := mapZeroValue\<rparr>)"
  "table_effect ''missingkey=error'' = (\<lambda>opts. opts\<lparr>missingKey := mapError\<rparr>)"
  "table_effect ''onpanic=recover'' = (\<lambda>opts. opts\<lparr>onPanic := panicRecover\<rparr>)"
  "table_effect ''onpanic=nop'' = (\<lambda>opts. opts\<lparr>onPanic := panicNop\<rparr>)"
  by (simp_all add: table_effect_def option_table_def)

lemma table_effect_cases:
  "(\<exists>v. table_effect s = (\<lambda>opts. opts\<lparr>missingKey := v\<rparr>)) \<or>
   (\<exists>v. table_effect s = (\<lambda>opts. opts\<lparr>onPanic := v\<rparr>)) \<or>
   table_effect s = (\<lambda>opts. opts)"
proof (cases "s \<in> set recognized_options")
  case True
  then have "s = ''missingkey=invalid'' \<or> s = ''missingkey=default'' \<or> s = ''missingkey=zero'' \<or>
      s = ''missingkey=error'' \<or> s = ''onpanic=recover'' \<or> s = ''onpanic=nop''"
    by (simp add: recognized_options_eq)
  then show ?thesis
    by (elim disjE) (simp_all only: table_effect_simps, blast+)
next
  case False
  then have "map_of option_table s = None"
    by (simp add: recognized_options_def map_of_eq_None_iff)
  then show ?thesis by (simp add: table_effect_def id_def)
qed

lemma table_effect_missingkey:
  assumes "s \<in> set missingkey_options"
  shows "\<exists>v. table_effect s = (\<lambda>opts. opts\<lparr>missingKey := v\<rparr>)"
  using assms by (auto simp: missingkey_options_def table_effect_simps)

lemma table_effect_onpanic:
  assumes "s \<in> set onpanic_options"
  shows "\<exists>v. table_effect s = (\<lambda>opts. opts\<lparr>onPanic := v\<rparr>)"
  using assms by (auto simp: onpanic_options_def table_effect_simps)

lemma table_effect_onPanic:
  assumes "onPanic a = onPanic b"
  shows "onPanic (table_effect s a) = onPanic (table_effect s b)"
  using table_effect_cases [of s] assms by (elim disjE exE) simp_all

lemma table_effect_missingKey:
  assumes "missingKey a = missingKey b"
  shows "missingKey (table_effect s a) = missingKey (table_effect s b)"
  using table_effect_cases [of s] assms by (elim disjE exE) simp_all

lemma table_effect_valid: "valid_option opts \<Longrightarrow> valid_option (table_effect s opts)"
proof (cases "s \<in> set recognized_options")
  case True
  assume "valid_option opts"
  with True show ?thesis
    by (auto simp: recognized_options_eq table_effect_simps valid_option_def)
next
  case False
  assume "valid_option opts"
  moreover from False have "map_of option_table s = None"
    by (simp add: recognized_options_def map_of_eq_None_iff)
  ultimately show ?thesis by (simp add: table_effect_def)
qed

lemma fold_table_effect_onPanic:
  assumes "onPanic a = onPanic b"
  shows "onPanic (fold table_effect ss a) = onPanic (fold table_effect ss b)"
  using assms
proof (induction ss arbitrary: a b)
  case Nil
  then show ?case by simp
next
  case (Cons s ss)
  from Cons.prems have "onPanic (table_effect s a) = onPanic (table_effect s b)"
    by (rule table_effect_onPanic)
  then have "onPanic (fold table_effect ss (table_effect s a)) =
      onPanic (fold table_effect ss (table_effect s b))"
    by (rule Cons.IH)
  then show ?case by simp
qed

lemma fold_table_effect_missingKey:
  assumes "missingKey a = missingKey b"
  shows "missingKey (fold table_effect ss a) = missingKey (fold table_effect ss b)"
  using assms
proof (induction ss arbitrary: a b)
  case Nil
  then show ?case by simp
next
  case (Cons s ss)
  from Cons.prems have "missingKey (table_effect s a) = missingKey (table_effect s b)"
    by (rule table_effect_missingKey)
  then have "missingKey (fold table_effect ss (table_effect s a)) =
      missingKey (fold table_effect ss (table_effect s b))"
    by (rule Cons.IH)
  then show ?case by simp
qed

lemma overwrite_missingkey:
  assumes "s1 \<in> set missingkey_options" and "s2 \<in> set missingkey_options"
  shows "fold table_effect (s1 # mid @ [s2]) opts = fold table_effect (mid @ [s2]) opts"
proof -
  from assms(1) obtain v1 where v1: "table_effect s1 = (\<lambda>opts. opts\<lparr>missingKey := v1\<rparr>)"
    using table_effect_missingkey by blast
  from assms(2) obtain v2 where v2: "table_effect s2 = (\<lambda>opts. opts\<lparr>missingKey := v2\<rparr>)"
    using table_effect_missingkey by blast
  have "onPanic (fold table_effect mid (opts\<lparr>missingKey := v1\<rparr>)) = onPanic (fold table_effect mid opts)"
    by (rule fold_table_effect_onPanic) simp
  with v1 v2 show ?thesis by simp
qed

lemma overwrite_onpanic:
  assumes "s1 \<in> set onpanic_options" and "s2 \<in> set onpanic_options"
  shows "fold table_effect (s1 # mid @ [s2]) opts = fold table_effect (mid @ [s2]) opts"
proof -
  from assms(1) obtain v1 where v1: "table_effect s1 = (\<lambda>opts. opts\<lparr>onPanic := v1\<rparr>)"
    using table_effect_onpanic by blast
  from assms(2) obtain v2 where v2: "table_effect s2 = (\<lambda>opts. opts\<lparr>onPanic := v2\<rparr>)"
    using table_effect_onpanic by blast
  have "missingKey (fold table_effect mid (opts\<lparr>onPanic := v1\<rparr>)) = missingKey (fold table_effect mid opts)"
    by (rule fold_table_effect_missingKey) simp
  with v1 v2 show ?thesis by simp
qed

lemma overwrite_same_field:
  assumes "s1 \<in> set missingkey_options \<and> s2 \<in> set missingkey_options \<or>
         s1 \<in> set onpanic_options \<and> s2 \<in> set onpanic_options"
  shows "fold table_effect (s1 # mid @ [s2]) opts = fold table_effect (mid @ [s2]) opts"
proof -
  from assms show ?thesis
  proof
    assume a: "s1 \<in> set missingkey_options \<and> s2 \<in> set missingkey_options"
    from a [THEN conjunct1] a [THEN conjunct2] show ?thesis
      by (rule overwrite_missingkey)
  next
    assume a: "s1 \<in> set onpanic_options \<and> s2 \<in> set onpanic_options"
    from a [THEN conjunct1] a [THEN conjunct2] show ?thesis
      by (rule overwrite_onpanic)
  qed
qed

subsection \<open>Calls of \<^verbatim>\<open>Option\<close>\<close>

lemma Option_single:
  assumes "h t = Some T" and "s \<in> set recognized_options"
  shows "fst (Option t [s] h) = Inr t"
    and "load_option t (snd (Option t [s] h)) = Inr (table_effect s (initial_option T))"
  using Option_recognized [of h t T "[s]"] assms by simp_all

lemma setOption_load:
  assumes "load_option t h = Inr opts"
  shows "load_option t (snd (setOption t s h)) = Inr (table_effect s opts)"
proof (cases "s \<in> set recognized_options")
  case True
  with assms show ?thesis
    by (simp add: setOption_table_effect store_option_loaded)
next
  case False
  then have "map_of option_table s = None"
    by (simp add: recognized_options_def map_of_eq_None_iff)
  with False assms show ?thesis
    by (simp add: setOption_unrecognized table_effect_def)
qed

text \<open>
  On a template that has its store, \<^verbatim>\<open>setOption\<close> returns normally on the strings of the
  table and on no others.
\<close>

lemma setOption_returns_iff:
  assumes "load_option t h = Inr opts"
  shows "fst (setOption t s h) = Inr () \<longleftrightarrow> s \<in> set recognized_options"
proof (cases "s \<in> set recognized_options")
  case True
  with assms show ?thesis
    by (simp add: setOption_table_effect store_option_loaded)
next
  case False
  then show ?thesis by (simp add: setOption_unrecognized)
qed

lemma setOptions_load:
  assumes "load_option t h = Inr opts"
  shows "\<exists>opts'. load_option t (snd (setOptions t ss h)) = Inr opts'"
  using assms
proof (induction ss arbitrary: h opts)
  case Nil
  then show ?case by simp
next
  case (Cons s ss)
  from setOption_load [OF Cons.prems, of s] Cons.IH Cons.prems
  show ?case by (cases "setOption t s h") (auto split: sum.splits)
qed

lemma setOptions_valid:
  assumes "load_option t h = Inr opts" and "valid_option opts"
  shows "\<exists>opts'. load_option t (snd (setOptions t ss h)) = Inr opts' \<and> valid_option opts'"
  using assms
proof (induction ss arbitrary: h opts)
  case Nil
  then show ?case by simp
next
  case (Cons s ss)
  obtain r h' where step: "setOption t s h = (r, h')" by (cases "setOption t s h")
  with setOption_load [OF Cons.prems(1), of s]
  have ld: "load_option t h' = Inr (table_effect s opts)" by simp
  from Cons.prems(2) have v: "valid_option (table_effect s opts)" by (rule table_effect_valid)
  show ?case
  proof (cases r)
    case (Inl e)
    with step ld v show ?thesis by simp
  next
    case (Inr u)
    with step Cons.IH [OF ld v] show ?thesis by simp
  qed
qed

lemma Option_append:
  assumes "h t = Some T"
  shows "Option t (xs @ ys) h =
     (case Option t xs h of
        (Inl e, h') \<Rightarrow> (Inl e, h')
      | (Inr r, h') \<Rightarrow> Option r ys h')"
proof -
  from assms obtain h0 where h0: "init t h = (Inr (), h0)"
    and ld: "load_option t h0 = Inr (initial_option T)"
    by (rule init_liveE)
  obtain r h1 where xs: "setOptions t xs h0 = (r, h1)" by (cases "setOptions t xs h0")
  from setOptions_load [OF ld, of xs] xs obtain opts' where "load_option t h1 = Inr opts'"
    by auto
  then have "init t h1 = (Inr (), h1)" by (rule init_loaded)
  with h0 xs show ?thesis
    by (simp add: Option_def setOptions_append split: sum.splits)
qed

lemma Option_overwrite:
  assumes "h t = Some T"
    and "set pre \<subseteq> set recognized_options" and "set mid \<subseteq> set recognized_options"
    and "s1 \<in> set missingkey_options \<and> s2 \<in> set missingkey_options \<or>
         s1 \<in> set onpanic_options \<and> s2 \<in> set onpanic_options"
  shows "Option t (pre @ s1 # mid @ s2 # post) h = Option t (pre @ mid @ s2 # post) h"
proof -
  from assms(4) have s: "s1 \<in> set recognized_options" "s2 \<in> set recognized_options"
    by (auto simp: recognized_options_split)
  let ?xs = "pre @ s1 # mid @ [s2]" and ?ys = "pre @ mid @ [s2]"
  have "fold table_effect (s1 # mid @ [s2]) opts = fold table_effect (mid @ [s2]) opts" for opts
    using assms(4) by (rule overwrite_same_field)
  then have eq: "fold table_effect ?xs = fold table_effect ?ys"
    by (simp add: fun_eq_iff)
  from s assms(2,3) have xs: "set ?xs \<subseteq> set recognized_options"
    and ys: "set ?ys \<subseteq> set recognized_options"
    by simp_all
  from assms(1) xs
  have "Option t ?xs h = (Inr t, snd (store_option t (fold table_effect ?xs) (snd (init t h))))"
    by (rule Option_recognized(1))
  moreover from assms(1) ys
  have "Option t ?ys h = (Inr t, snd (store_option t (fold table_effect ?ys) (snd (init t h))))"
    by (rule Option_recognized(1))
  ultimately have "Option t ?xs h = Option t ?ys h"
    by (simp only: eq)
  moreover from assms(1) have "Option t (?xs @ post) h =
      (case Option t ?xs h of (Inl e, h') \<Rightarrow> (Inl e, h') | (Inr r, h') \<Rightarrow> Option r post h')"
    by (rule Option_append)
  moreover from assms(1) have "Option t (?ys @ post) h =
      (case Option t ?ys h of (Inl e, h') \<Rightarrow> (Inl e, h') | (Inr r, h') \<Rightarrow> Option r post h')"
    by (rule Option_append)
  ultimately have "Option t (?xs @ post) h = Option t (?ys @ post) h"
    by (simp only:)
  then show ?thesis by simp
qed

lemma setOption_frame: "r \<noteq> t \<Longrightarrow> snd (setOption t s h) r = h r"
  by (cases "s \<in> set recognized_options")
    (simp_all add: setOption_table_effect setOption_unrecognized store_option_frame)

lemma setOptions_frame: "r \<noteq> t \<Longrightarrow> snd (setOptions t ss h) r = h r"
proof (induction ss arbitrary: h)
  case Nil
  then show ?case by simp
next
  case (Cons s ss)
  from Cons.prems have "snd (setOption t s h) r = h r" by (rule setOption_frame)
  with Cons.IH [OF Cons.prems] show ?case
    by (cases "setOption t s h") (auto split: sum.splits)
qed

lemma Option_frame: "r \<noteq> t \<Longrightarrow> snd (Option t ss h) r = h r"
proof -
  assume r: "r \<noteq> t"
  obtain e h0 where i: "init t h = (e, h0)" by (cases "init t h")
  with init_frame [OF r, of h] have h0: "h0 r = h r" by simp
  obtain e' h1 where s: "setOptions t ss h0 = (e', h1)" by (cases "setOptions t ss h0")
  with setOptions_frame [OF r, of ss h0] h0 have "h1 r = h r" by simp
  with i s h0 show ?thesis by (simp add: Option_def split: sum.splits)
qed

lemma setOptions_alias:
  assumes "\<And>h :: 'a heap. setOption t a h = setOption t b h"
  shows "setOptions t (pre @ a # rest) (h :: 'a heap) = setOptions t (pre @ b # rest) h"
proof (induction pre arbitrary: h)
  case Nil
  show ?case by (simp add: assms)
next
  case (Cons s pre)
  show ?case
  proof (cases "setOption t s h")
    case (Pair r h')
    with Cons.IH [of h'] show ?thesis by (cases r) simp_all
  qed
qed

section \<open>The claims of the specification\<close>

text \<open>
  Claim C1. On a live template, \<^verbatim>\<open>Option\<close> with any one of the six recognised option
  strings returns normally, and reading the field the string names then gives the value
  of the table: \<^verbatim>\<open>mapInvalid\<close> for "missingkey=invalid" and "missingkey=default",
  \<^verbatim>\<open>mapZeroValue\<close> for "missingkey=zero", \<^verbatim>\<open>mapError\<close> for "missingkey=error",
  \<^verbatim>\<open>panicRecover\<close> for "onpanic=recover" and \<^verbatim>\<open>panicNop\<close> for "onpanic=nop".
\<close>

theorem recognized_options_set_mapped_value:
  assumes "h t = Some T"
  shows
    "(fst (Option t [''missingkey=invalid''] h) = Inr t \<and>
      get_missingKey t (snd (Option t [''missingkey=invalid''] h)) = Inr mapInvalid) \<and>
     (fst (Option t [''missingkey=default''] h) = Inr t \<and>
      get_missingKey t (snd (Option t [''missingkey=default''] h)) = Inr mapInvalid) \<and>
     (fst (Option t [''missingkey=zero''] h) = Inr t \<and>
      get_missingKey t (snd (Option t [''missingkey=zero''] h)) = Inr mapZeroValue) \<and>
     (fst (Option t [''missingkey=error''] h) = Inr t \<and>
      get_missingKey t (snd (Option t [''missingkey=error''] h)) = Inr mapError) \<and>
     (fst (Option t [''onpanic=recover''] h) = Inr t \<and>
      get_onPanic t (snd (Option t [''onpanic=recover''] h)) = Inr panicRecover) \<and>
     (fst (Option t [''onpanic=nop''] h) = Inr t \<and>
      get_onPanic t (snd (Option t [''onpanic=nop''] h)) = Inr panicNop)"
proof -
  have *: "fst (Option t [s] h) = Inr t \<and>
      load_option t (snd (Option t [s] h)) = Inr (table_effect s (initial_option T))"
    if "s \<in> set recognized_options" for s
    using Option_single [of h t T s] assms that by simp
  have in_table: "''missingkey=invalid'' \<in> set recognized_options"
    "''missingkey=default'' \<in> set recognized_options"
    "''missingkey=zero'' \<in> set recognized_options"
    "''missingkey=error'' \<in> set recognized_options"
    "''onpanic=recover'' \<in> set recognized_options"
    "''onpanic=nop'' \<in> set recognized_options"
    by (simp_all add: recognized_options_eq)
  show ?thesis
    using in_table [THEN *]
    by (simp add: get_missingKey_def get_onPanic_def table_effect_simps)
qed

theorem recognized_options_set_mapped_value_witness:
  "[0 \<mapsto> \<lparr>option = None\<rparr>] (0::nat) = Some \<lparr>option = None\<rparr> \<and>
   fst (Option 0 [''missingkey=invalid''] [0 \<mapsto> \<lparr>option = None\<rparr>]) = Inr 0 \<and>
   get_missingKey 0 (snd (Option 0 [''missingkey=invalid''] [0 \<mapsto> \<lparr>option = None\<rparr>])) = Inr mapInvalid \<and>
   get_missingKey 0 (snd (Option 0 [''missingkey=zero''] [0 \<mapsto> \<lparr>option = None\<rparr>])) = Inr mapZeroValue \<and>
   get_missingKey 0 (snd (Option 0 [''missingkey=error''] [0 \<mapsto> \<lparr>option = None\<rparr>])) = Inr mapError \<and>
   get_onPanic 0 (snd (Option 0 [''onpanic=nop''] [0 \<mapsto> \<lparr>option = None\<rparr>])) = Inr panicNop"
  using recognized_options_set_mapped_value [of "[0 \<mapsto> \<lparr>option = None\<rparr>]" 0 "\<lparr>option = None\<rparr>"]
  by simp

text \<open>
  Claim C2. A call of \<^verbatim>\<open>Option\<close> on a live template whose strings are recognised up to a
  first unrecognised one panics at that one: the strings after it play no part in the
  result, the failing string writes nothing, and the heap returned is the heap after the
  strings before it, each of which was applied.
\<close>

theorem resolution_stops_at_first_invalid:
  assumes "h t = Some T" and "set pre \<subseteq> set recognized_options"
    and "bad \<notin> set recognized_options"
  shows "Option t (pre @ bad # rest) h =
       (Inl (Panic (if bad = [] then ''empty option string'' else ''unrecognized option: '' @ bad)),
        snd (Option t pre h)) \<and>
     fst (Option t pre h) = Inr t \<and>
     load_option t (snd (Option t pre h)) = Inr (fold table_effect pre (initial_option T)) \<and>
     snd (setOption t bad h) = h"
proof -
  from assms have "Option t (pre @ bad # rest) h =
       (Inl (Panic (if bad = [] then ''empty option string'' else ''unrecognized option: '' @ bad)),
        snd (Option t pre h))"
    by (rule Option_stops)
  moreover from assms(1,2) have "fst (Option t pre h) = Inr t"
    by (simp add: Option_recognized(1) [of h t T])
  moreover from assms(1,2)
  have "load_option t (snd (Option t pre h)) = Inr (fold table_effect pre (initial_option T))"
    by (rule Option_recognized(2))
  moreover from assms(3) have "snd (setOption t bad h) = h"
    by (simp add: setOption_unrecognized)
  ultimately show ?thesis by simp
qed

theorem resolution_stops_at_first_invalid_witness:
  "[0 \<mapsto> \<lparr>option = None\<rparr>] (0::nat) = Some \<lparr>option = None\<rparr> \<and>
   set [''missingkey=zero''] \<subseteq> set recognized_options \<and>
   ''missingkey=bogus'' \<notin> set recognized_options \<and>
   Option 0 [''missingkey=zero'', ''missingkey=bogus'', ''onpanic=nop''] [0 \<mapsto> \<lparr>option = None\<rparr>] =
     (Inl (Panic ''unrecognized option: missingkey=bogus''),
      snd (Option 0 [''missingkey=zero''] [0 \<mapsto> \<lparr>option = None\<rparr>])) \<and>
   load_option 0 (snd (Option 0 [''missingkey=zero''] [0 \<mapsto> \<lparr>option = None\<rparr>])) =
     Inr \<lparr>missingKey = mapZeroValue, onPanic = panicRecover\<rparr>"
  using resolution_stops_at_first_invalid [of "[0 \<mapsto> \<lparr>option = None\<rparr>]" 0 "\<lparr>option = None\<rparr>"
      "[''missingkey=zero'']" "''missingkey=bogus''" "[''onpanic=nop'']"]
  by (simp add: recognized_options_eq table_effect_simps initial_option_def zero_option_def
      panicRecover_def)

text \<open>
  Claim C3. A string \<open>key=value\<close> whose key is not recognised, or whose key is recognised
  and whose value is not, makes \<^verbatim>\<open>setOption\<close> panic with the message
  "unrecognized option: " followed by the string as it was given; the heap is returned
  as it was, and \<^verbatim>\<open>Option\<close> passes the panic on to its caller.
\<close>

theorem unrecognized_key_value_rejected:
  assumes "\<not> (key = ''missingkey'' \<and> val \<in> {''invalid'', ''default'', ''zero'', ''error''})"
    and "\<not> (key = ''onpanic'' \<and> val \<in> {''recover'', ''nop''})"
  shows "setOption t (key @ ''='' @ val) h =
       (Inl (Panic (''unrecognized option: '' @ key @ ''='' @ val)), h) \<and>
     (h t = Some T \<longrightarrow>
        Option t [key @ ''='' @ val] h =
          (Inl (Panic (''unrecognized option: '' @ key @ ''='' @ val)), snd (init t h)))"
proof -
  obtain k v where cut: "Cut (key @ ''='' @ val) ''='' = (k, v, True)"
    and kv: "k = key \<and> v = val \<or> CHR ''='' \<in> set v"
    using Cut_key_value [of key "CHR ''=''" val] by auto
  from kv assms have "\<not> (k = ''missingkey'' \<and> v \<in> {''invalid'', ''default'', ''zero'', ''error''})"
    and "\<not> (k = ''onpanic'' \<and> v \<in> {''recover'', ''nop''})"
    by auto
  with cut have 1: "setOption t (key @ ''='' @ val) h' =
       (Inl (Panic (''unrecognized option: '' @ key @ ''='' @ val)), h')" for h' :: "'a heap"
    by (auto simp: setOption_def Let_def)
  then show ?thesis by (auto simp: Option_live)
qed

theorem unrecognized_key_value_rejected_witness:
  "\<not> (''missingkey'' = ''missingkey'' \<and> ''bogus'' \<in> {''invalid'', ''default'', ''zero'', ''error''}) \<and>
   \<not> (''missingkey'' = ''onpanic'' \<and> ''bogus'' \<in> {''recover'', ''nop''}) \<and>
   [0 \<mapsto> \<lparr>option = None\<rparr>] (0::nat) = Some \<lparr>option = None\<rparr> \<and>
   Option 0 [''missingkey=bogus''] [0 \<mapsto> \<lparr>option = None\<rparr>] =
     (Inl (Panic ''unrecognized option: missingkey=bogus''), [0 \<mapsto> \<lparr>option = Some zero_option\<rparr>])"
  using unrecognized_key_value_rejected [of "''missingkey''" "''bogus''" 0
      "[0 \<mapsto> \<lparr>option = None\<rparr>]" "\<lparr>option = None\<rparr>"]
  by (simp add: init_def)

text \<open>
  Claim C4. A store created by \<^verbatim>\<open>init\<close> holds \<^verbatim>\<open>mapInvalid\<close> and \<^verbatim>\<open>panicRecover\<close>, which are
  the zero values of the two fields; and a template whose store is absent or holds declared
  values has, after any call of \<^verbatim>\<open>Option\<close>, whether it returns or panics, a store that
  holds declared values in both fields.
\<close>

theorem fresh_store_defaults_and_validity:
  "missingKey zero_option = mapInvalid \<and> onPanic zero_option = panicRecover \<and>
   (h t = Some T \<and> option T = None \<longrightarrow>
      get_missingKey t (snd (init t h)) = Inr mapInvalid \<and>
      get_onPanic t (snd (init t h)) = Inr panicRecover) \<and>
   (h t = Some T \<and> (case option T of None \<Rightarrow> True | Some opts \<Rightarrow> valid_option opts) \<longrightarrow>
      (\<exists>opts'. load_option t (snd (Option t opts h)) = Inr opts' \<and> valid_option opts'))"
proof -
  have fresh: "missingKey zero_option = mapInvalid"
    "onPanic zero_option = panicRecover"
    by (simp_all add: zero_option_def mapInvalid_def panicRecover_def)
  have first: "get_missingKey t (snd (init t h)) = Inr mapInvalid \<and>
      get_onPanic t (snd (init t h)) = Inr panicRecover"
    if "h t = Some T" and "option T = None"
    using init_live(2) [of h t T] that fresh
    by (simp add: get_missingKey_def get_onPanic_def initial_option_def)
  have inv: "\<exists>opts'. load_option t (snd (Option t opts h)) = Inr opts' \<and> valid_option opts'"
    if live: "h t = Some T"
      and v: "case option T of None \<Rightarrow> True | Some opts \<Rightarrow> valid_option opts"
  proof -
    from live obtain h0 where h0: "init t h = (Inr (), h0)"
      and ld: "load_option t h0 = Inr (initial_option T)"
      by (rule init_liveE)
    from v fresh have "valid_option (initial_option T)"
      by (simp add: initial_option_def valid_option_def split: option.splits)
    with ld obtain opts' where "load_option t (snd (setOptions t opts h0)) = Inr opts'"
      and "valid_option opts'"
      using setOptions_valid by blast
    with h0 show ?thesis
      by (cases "setOptions t opts h0") (auto simp: Option_def split: sum.splits)
  qed
  from fresh first inv show ?thesis by blast
qed

theorem fresh_store_defaults_and_validity_witness:
  "[0 \<mapsto> \<lparr>option = None\<rparr>] (0::nat) = Some \<lparr>option = None\<rparr> \<and>
   option \<lparr>option = None\<rparr> = None \<and>
   get_missingKey 0 (snd (init 0 [0 \<mapsto> \<lparr>option = None\<rparr>])) = Inr mapInvalid \<and>
   get_onPanic 0 (snd (init 0 [0 \<mapsto> \<lparr>option = None\<rparr>])) = Inr panicRecover \<and>
   (\<exists>opts'. load_option 0
        (snd (Option 0 [''missingkey=error'', ''onpanic'', ''onpanic=nop'']
           [0 \<mapsto> \<lparr>option = None\<rparr>])) = Inr opts' \<and>
      valid_option opts')"
  using fresh_store_defaults_and_validity [of "[0 \<mapsto> \<lparr>option = None\<rparr>]" 0 "\<lparr>option = None\<rparr>"
      "[''missingkey=error'', ''onpanic'', ''onpanic=nop'']"]
  by simp

text \<open>
  Claim C5. The empty option string always makes \<^verbatim>\<open>setOption\<close> panic, whatever the
  template holds, and \<^verbatim>\<open>Option\<close> on a live template passes the panic on: nothing is
  written beyond what \<^verbatim>\<open>init\<close> did.
\<close>

theorem empty_option_rejected:
  "setOption t [] h = (Inl (Panic ''empty option string''), h) \<and>
   (h t = Some T \<longrightarrow>
      Option t [[]] h = (Inl (Panic ''empty option string''), snd (init t h)))"
proof -
  have "[] \<notin> set recognized_options" by (simp add: recognized_options_eq)
  then have 1: "setOption t [] h' = (Inl (Panic ''empty option string''), h')" for h' :: "'a heap"
    by (simp add: setOption_unrecognized)
  then show ?thesis by (auto simp add: Option_live)
qed

theorem empty_option_rejected_witness:
  "[0 \<mapsto> \<lparr>option = None\<rparr>] (0::nat) = Some \<lparr>option = None\<rparr> \<and>
   Option 0 [[]] [0 \<mapsto> \<lparr>option = None\<rparr>] =
     (Inl (Panic ''empty option string''), snd (init 0 [0 \<mapsto> \<lparr>option = None\<rparr>]))"
  using empty_option_rejected [of 0 "[0 \<mapsto> \<lparr>option = None\<rparr>]" "\<lparr>option = None\<rparr>"]
  by simp

text \<open>
  Claim C6. An option string without the character \<^verbatim>\<open>=\<close> makes \<^verbatim>\<open>setOption\<close> panic and
  leaves the heap as it was, and \<^verbatim>\<open>Option\<close> on a live template passes the panic on, both
  for the string alone and for the string after any recognised ones: no bare keyword is an
  option.
\<close>

theorem no_equals_sign_rejected:
  assumes "CHR ''='' \<notin> set opt"
  shows "setOption t opt h =
       (Inl (Panic (if opt = [] then ''empty option string'' else ''unrecognized option: '' @ opt)),
        h) \<and>
     (h t = Some T \<longrightarrow>
        Option t [opt] h =
          (Inl (Panic (if opt = [] then ''empty option string''
                       else ''unrecognized option: '' @ opt)),
           snd (init t h))) \<and>
     (h t = Some T \<and> set pre \<subseteq> set recognized_options \<longrightarrow>
        Option t (pre @ opt # rest) h =
          (Inl (Panic (if opt = [] then ''empty option string''
                       else ''unrecognized option: '' @ opt)),
           snd (Option t pre h)))"
proof -
  from assms have bad: "opt \<notin> set recognized_options"
    by (auto simp: recognized_options_eq)
  then have one: "setOption t opt h' =
       (Inl (Panic (if opt = [] then ''empty option string'' else ''unrecognized option: '' @ opt)),
        h')" for h' :: "'a heap"
    by (rule setOption_unrecognized)
  have alone: "Option t [opt] h =
          (Inl (Panic (if opt = [] then ''empty option string''
                       else ''unrecognized option: '' @ opt)),
           snd (init t h))"
    if "h t = Some T"
    using that one [of "snd (init t h)"] by (simp add: Option_live)
  have after: "Option t (pre @ opt # rest) h =
          (Inl (Panic (if opt = [] then ''empty option string''
                       else ''unrecognized option: '' @ opt)),
           snd (Option t pre h))"
    if "h t = Some T" and "set pre \<subseteq> set recognized_options"
    using that bad by (rule Option_stops)
  from one [of h] alone after show ?thesis by blast
qed

theorem no_equals_sign_rejected_witness:
  "CHR ''='' \<notin> set ''missingkey'' \<and>
   [0 \<mapsto> \<lparr>option = None\<rparr>] (0::nat) = Some \<lparr>option = None\<rparr> \<and>
   set [''onpanic=nop''] \<subseteq> set recognized_options \<and>
   setOption 0 ''missingkey'' [0 \<mapsto> \<lparr>option = None\<rparr>] =
     (Inl (Panic ''unrecognized option: missingkey''), [0 \<mapsto> \<lparr>option = None\<rparr>]) \<and>
   Option 0 [''missingkey''] [0 \<mapsto> \<lparr>option = None\<rparr>] =
     (Inl (Panic ''unrecognized option: missingkey''), [0 \<mapsto> \<lparr>option = Some zero_option\<rparr>]) \<and>
   fst (Option 0 [''onpanic=nop'', ''missingkey'', ''missingkey=zero'']
       [0 \<mapsto> \<lparr>option = None\<rparr>]) =
     Inl (Panic ''unrecognized option: missingkey'')"
  using no_equals_sign_rejected [of "''missingkey''" 0 "[0 \<mapsto> \<lparr>option = None\<rparr>]"
      "\<lparr>option = None\<rparr>" "[''onpanic=nop'']" "[''missingkey=zero'']"]
  by (simp add: recognized_options_eq init_def)

text \<open>
  Claim C7. "missingkey=default" and "missingkey=invalid" are interchangeable:
  \<^verbatim>\<open>setOption\<close> does the same on both from any heap, so does \<^verbatim>\<open>Option\<close> with either at the
  same place of a sequence, and afterwards \<^verbatim>\<open>missingKey\<close> is \<^verbatim>\<open>mapInvalid\<close> for both.
\<close>

theorem default_is_alias_of_invalid:
  "setOption t ''missingkey=default'' h = setOption t ''missingkey=invalid'' h \<and>
   Option t (pre @ ''missingkey=default'' # rest) h =
     Option t (pre @ ''missingkey=invalid'' # rest) h \<and>
   (h t = Some T \<longrightarrow>
      get_missingKey t (snd (Option t [''missingkey=default''] h)) = Inr mapInvalid \<and>
      get_missingKey t (snd (Option t [''missingkey=invalid''] h)) = Inr mapInvalid)"
proof -
  have same: "setOption t ''missingkey=default'' h' = setOption t ''missingkey=invalid'' h'"
    for h' :: "'a heap"
    using setOption_missingkey [of t "''default''" h'] setOption_missingkey [of t "''invalid''" h']
    by simp
  then have "setOptions t (pre @ ''missingkey=default'' # rest) h' =
      setOptions t (pre @ ''missingkey=invalid'' # rest) h'" for h' :: "'a heap"
    by (rule setOptions_alias)
  then have seq: "Option t (pre @ ''missingkey=default'' # rest) h =
      Option t (pre @ ''missingkey=invalid'' # rest) h"
    by (simp add: Option_def split: prod.splits sum.splits)
  have val: "get_missingKey t (snd (Option t [''missingkey=default''] h)) = Inr mapInvalid \<and>
      get_missingKey t (snd (Option t [''missingkey=invalid''] h)) = Inr mapInvalid"
    if "h t = Some T"
    using Option_single(2) [of h t T "''missingkey=default''"]
      Option_single(2) [of h t T "''missingkey=invalid''"] that
    by (simp add: recognized_options_eq table_effect_simps get_missingKey_def)
  from same seq val show ?thesis by blast
qed

theorem default_is_alias_of_invalid_witness:
  "[0 \<mapsto> \<lparr>option = None\<rparr>] (0::nat) = Some \<lparr>option = None\<rparr> \<and>
   get_missingKey 0 (snd (Option 0 [''missingkey=default''] [0 \<mapsto> \<lparr>option = None\<rparr>])) =
     Inr mapInvalid \<and>
   get_missingKey 0 (snd (Option 0 [''missingkey=invalid''] [0 \<mapsto> \<lparr>option = None\<rparr>])) =
     Inr mapInvalid"
  using default_is_alias_of_invalid [of 0 "[0 \<mapsto> \<lparr>option = None\<rparr>]" "[]" "[]"
      "\<lparr>option = None\<rparr>"]
  by simp

text \<open>
  Claim C8. Option strings are processed from left to right: a call with \<open>xs @ ys\<close> is
  the call with \<open>xs\<close> followed, if it returns, by the call with \<open>ys\<close> on the heap it
  left. Of two recognised strings for the same field the later one wins without any
  error: the call returns, and dropping the earlier string changes nothing. In particular
  "missingkey=zero" then "missingkey=error" leaves \<^verbatim>\<open>mapError\<close>, and the other order
  leaves \<^verbatim>\<open>mapZeroValue\<close>.
\<close>

theorem last_write_wins:
  assumes "h t = Some T"
  shows
    "(set pre \<subseteq> set recognized_options \<and> set mid \<subseteq> set recognized_options \<and>
      (s1 \<in> set missingkey_options \<and> s2 \<in> set missingkey_options \<or>
       s1 \<in> set onpanic_options \<and> s2 \<in> set onpanic_options) \<longrightarrow>
        fst (Option t (pre @ s1 # mid @ [s2]) h) = Inr t \<and>
        Option t (pre @ s1 # mid @ s2 # post) h = Option t (pre @ mid @ s2 # post) h) \<and>
     Option t (xs @ ys) h =
       (case Option t xs h of
          (Inl e, h') \<Rightarrow> (Inl e, h')
        | (Inr r, h') \<Rightarrow> Option r ys h') \<and>
     fst (Option t [''missingkey=zero'', ''missingkey=error''] h) = Inr t \<and>
     get_missingKey t (snd (Option t [''missingkey=zero'', ''missingkey=error''] h)) = Inr mapError \<and>
     get_missingKey t (snd (Option t [''missingkey=error'', ''missingkey=zero''] h)) =
       Inr mapZeroValue"
proof -
  have over: "fst (Option t (pre @ s1 # mid @ [s2]) h) = Inr t \<and>
      Option t (pre @ s1 # mid @ s2 # post) h = Option t (pre @ mid @ s2 # post) h"
    if pre: "set pre \<subseteq> set recognized_options" and mid: "set mid \<subseteq> set recognized_options"
      and same: "s1 \<in> set missingkey_options \<and> s2 \<in> set missingkey_options \<or>
        s1 \<in> set onpanic_options \<and> s2 \<in> set onpanic_options"
  proof -
    from same have "s1 \<in> set recognized_options" and "s2 \<in> set recognized_options"
      by (auto simp: recognized_options_split)
    with pre mid have "set (pre @ s1 # mid @ [s2]) \<subseteq> set recognized_options"
      by simp
    with assms have "fst (Option t (pre @ s1 # mid @ [s2]) h) = Inr t"
      by (simp add: Option_recognized(1) [of h t T])
    moreover from assms pre mid same
    have "Option t (pre @ s1 # mid @ s2 # post) h = Option t (pre @ mid @ s2 # post) h"
      by (rule Option_overwrite)
    ultimately show ?thesis by simp
  qed
  from assms have seq: "Option t (xs @ ys) h =
       (case Option t xs h of
          (Inl e, h') \<Rightarrow> (Inl e, h')
        | (Inr r, h') \<Rightarrow> Option r ys h')"
    by (rule Option_append)
  have ex: "fst (Option t [''missingkey=zero'', ''missingkey=error''] h) = Inr t"
    "get_missingKey t (snd (Option t [''missingkey=zero'', ''missingkey=error''] h)) = Inr mapError"
    "get_missingKey t (snd (Option t [''missingkey=error'', ''missingkey=zero''] h)) =
       Inr mapZeroValue"
    using Option_recognized [of h t T "[''missingkey=zero'', ''missingkey=error'']"]
      Option_recognized(2) [of h t T "[''missingkey=error'', ''missingkey=zero'']"] assms
    by (simp_all add: recognized_options_eq table_effect_simps get_missingKey_def)
  from over seq ex show ?thesis by blast
qed

theorem last_write_wins_witness:
  "[0 \<mapsto> \<lparr>option = None\<rparr>] (0::nat) = Some \<lparr>option = None\<rparr> \<and>
   set [''onpanic=nop''] \<subseteq> set recognized_options \<and>
   set [''onpanic=recover''] \<subseteq> set recognized_options \<and>
   ''missingkey=zero'' \<in> set missingkey_options \<and>
   ''missingkey=error'' \<in> set missingkey_options \<and>
   Option 0 [''onpanic=nop'', ''missingkey=zero'', ''onpanic=recover'', ''missingkey=error'']
       [0 \<mapsto> \<lparr>option = None\<rparr>] =
     Option 0 [''onpanic=nop'', ''onpanic=recover'', ''missingkey=error'']
       [0 \<mapsto> \<lparr>option = None\<rparr>] \<and>
   get_missingKey 0
       (snd (Option 0 [''missingkey=zero'', ''missingkey=error''] [0 \<mapsto> \<lparr>option = None\<rparr>])) =
     Inr mapError"
  using last_write_wins [of "[0 \<mapsto> \<lparr>option = None\<rparr>]" 0 "\<lparr>option = None\<rparr>"
      "[''onpanic=nop'']" "[''onpanic=recover'']" "''missingkey=zero''" "''missingkey=error''"
      "[]" "[]" "[]"]
  by (simp add: recognized_options_eq missingkey_options_def)

text \<open>
  Claim C9. A recognised string writes one field of the store and nothing else of it:
  after a "missingkey" option the store is the old one with \<^verbatim>\<open>missingKey\<close> replaced, so
  \<^verbatim>\<open>onPanic\<close> reads as before, and after an "onpanic" option it is the old one with
  \<^verbatim>\<open>onPanic\<close> replaced, so \<^verbatim>\<open>missingKey\<close> reads as before. In particular "onpanic=nop"
  followed by "missingkey=error" leaves \<^verbatim>\<open>panicNop\<close> and \<^verbatim>\<open>mapError\<close> together.
\<close>

theorem options_set_one_field:
  "(load_option t h = Inr opts \<and> s \<in> set missingkey_options \<longrightarrow>
      fst (setOption t s h) = Inr () \<and>
      (\<exists>v. load_option t (snd (setOption t s h)) = Inr (opts\<lparr>missingKey := v\<rparr>)) \<and>
      get_onPanic t (snd (setOption t s h)) = Inr (onPanic opts)) \<and>
   (load_option t h = Inr opts \<and> s \<in> set onpanic_options \<longrightarrow>
      fst (setOption t s h) = Inr () \<and>
      (\<exists>v. load_option t (snd (setOption t s h)) = Inr (opts\<lparr>onPanic := v\<rparr>)) \<and>
      get_missingKey t (snd (setOption t s h)) = Inr (missingKey opts)) \<and>
   (h t = Some T \<longrightarrow>
      fst (Option t [''onpanic=nop'', ''missingkey=error''] h) = Inr t \<and>
      get_onPanic t (snd (Option t [''onpanic=nop'', ''missingkey=error''] h)) = Inr panicNop \<and>
      get_missingKey t (snd (Option t [''onpanic=nop'', ''missingkey=error''] h)) = Inr mapError)"
proof -
  have step: "fst (setOption t s h) = Inr () \<and>
      load_option t (snd (setOption t s h)) = Inr (table_effect s opts)"
    if "load_option t h = Inr opts" and "s \<in> set recognized_options"
    using that by (simp add: setOption_table_effect store_option_loaded)
  have mk: "fst (setOption t s h) = Inr () \<and>
      (\<exists>v. load_option t (snd (setOption t s h)) = Inr (opts\<lparr>missingKey := v\<rparr>)) \<and>
      get_onPanic t (snd (setOption t s h)) = Inr (onPanic opts)"
    if ld: "load_option t h = Inr opts" and s: "s \<in> set missingkey_options"
  proof -
    from s obtain v where "table_effect s = (\<lambda>opts. opts\<lparr>missingKey := v\<rparr>)"
      using table_effect_missingkey by blast
    moreover from s have "s \<in> set recognized_options"
      by (simp add: recognized_options_split)
    ultimately show ?thesis
      using step [OF ld] by (auto simp: get_onPanic_def)
  qed
  have op: "fst (setOption t s h) = Inr () \<and>
      (\<exists>v. load_option t (snd (setOption t s h)) = Inr (opts\<lparr>onPanic := v\<rparr>)) \<and>
      get_missingKey t (snd (setOption t s h)) = Inr (missingKey opts)"
    if ld: "load_option t h = Inr opts" and s: "s \<in> set onpanic_options"
  proof -
    from s obtain v where "table_effect s = (\<lambda>opts. opts\<lparr>onPanic := v\<rparr>)"
      using table_effect_onpanic by blast
    moreover from s have "s \<in> set recognized_options"
      by (simp add: recognized_options_split)
    ultimately show ?thesis
      using step [OF ld] by (auto simp: get_missingKey_def)
  qed
  have ex: "fst (Option t [''onpanic=nop'', ''missingkey=error''] h) = Inr t \<and>
      get_onPanic t (snd (Option t [''onpanic=nop'', ''missingkey=error''] h)) = Inr panicNop \<and>
      get_missingKey t (snd (Option t [''onpanic=nop'', ''missingkey=error''] h)) = Inr mapError"
    if "h t = Some T"
    using Option_recognized [of h t T "[''onpanic=nop'', ''missingkey=error'']"] that
    by (simp add: recognized_options_eq table_effect_simps get_missingKey_def get_onPanic_def)
  from mk op ex show ?thesis by blast
qed

theorem options_set_one_field_witness:
  "load_option 0 [0 \<mapsto> \<lparr>option = Some zero_option\<rparr>] = Inr zero_option \<and>
   ''missingkey=error'' \<in> set missingkey_options \<and>
   get_onPanic 0 (snd (setOption 0 ''missingkey=error'' [0 \<mapsto> \<lparr>option = Some zero_option\<rparr>])) =
     Inr (onPanic zero_option) \<and>
   load_option 0 [0 \<mapsto> \<lparr>option = Some zero_option\<rparr>] = Inr zero_option \<and>
   ''onpanic=nop'' \<in> set onpanic_options \<and>
   get_missingKey 0 (snd (setOption 0 ''onpanic=nop'' [0 \<mapsto> \<lparr>option = Some zero_option\<rparr>])) =
     Inr (missingKey zero_option) \<and>
   [0 \<mapsto> \<lparr>option = Some zero_option\<rparr>] (0::nat) = Some \<lparr>option = Some zero_option\<rparr> \<and>
   get_onPanic 0
       (snd (Option 0 [''onpanic=nop'', ''missingkey=error'']
          [0 \<mapsto> \<lparr>option = Some zero_option\<rparr>])) = Inr panicNop \<and>
   get_missingKey 0
       (snd (Option 0 [''onpanic=nop'', ''missingkey=error'']
          [0 \<mapsto> \<lparr>option = Some zero_option\<rparr>])) = Inr mapError"
  using options_set_one_field [of 0 "[0 \<mapsto> \<lparr>option = Some zero_option\<rparr>]" "zero_option"
        "''missingkey=error''" "\<lparr>option = Some zero_option\<rparr>"]
    options_set_one_field [of 0 "[0 \<mapsto> \<lparr>option = Some zero_option\<rparr>]" "zero_option"
        "''onpanic=nop''" "\<lparr>option = Some zero_option\<rparr>"]
  by (simp add: load_option_def missingkey_options_def onpanic_options_def)

text \<open>
  Claim C10. With recognised strings only, \<^verbatim>\<open>Option\<close> on a live template returns the
  reference it was called on; the template at that reference holds the options of the
  table applied in order, no other cell of the heap is written, and a second call on the
  returned reference is the same as one call with both sequences.
\<close>

theorem Option_returns_receiver:
  assumes "h t = Some T" and "set opts \<subseteq> set recognized_options"
  shows "fst (Option t opts h) = Inr t \<and>
     load_option t (snd (Option t opts h)) = Inr (fold table_effect opts (initial_option T)) \<and>
     (\<forall>r. r \<noteq> t \<longrightarrow> snd (Option t opts h) r = h r) \<and>
     (case Option t opts h of
        (Inl e, h') \<Rightarrow> False
      | (Inr r, h') \<Rightarrow> Option r opts2 h' = Option t (opts @ opts2) h)"
proof -
  from assms have ret: "Option t opts h =
      (Inr t, snd (store_option t (fold table_effect opts) (snd (init t h))))"
    by (rule Option_recognized(1))
  from assms have ld: "load_option t (snd (Option t opts h)) =
      Inr (fold table_effect opts (initial_option T))"
    by (rule Option_recognized(2))
  have frame: "\<forall>r. r \<noteq> t \<longrightarrow> snd (Option t opts h) r = h r"
    by (simp add: Option_frame)
  from assms(1) have "Option t (opts @ opts2) h =
      (case Option t opts h of
         (Inl e, h') \<Rightarrow> (Inl e, h')
       | (Inr r, h') \<Rightarrow> Option r opts2 h')"
    by (rule Option_append)
  with ret have chain: "case Option t opts h of
        (Inl e, h') \<Rightarrow> False
      | (Inr r, h') \<Rightarrow> Option r opts2 h' = Option t (opts @ opts2) h"
    by simp
  from ret ld frame chain show ?thesis by simp
qed

theorem Option_returns_receiver_witness:
  "[0 \<mapsto> \<lparr>option = None\<rparr>, 1 \<mapsto> \<lparr>option = None\<rparr>] (0::nat) = Some \<lparr>option = None\<rparr> \<and>
   set [''onpanic=nop'', ''missingkey=error''] \<subseteq> set recognized_options \<and>
   fst (Option 0 [''onpanic=nop'', ''missingkey=error'']
       [0 \<mapsto> \<lparr>option = None\<rparr>, 1 \<mapsto> \<lparr>option = None\<rparr>]) = Inr 0 \<and>
   load_option 0 (snd (Option 0 [''onpanic=nop'', ''missingkey=error'']
       [0 \<mapsto> \<lparr>option = None\<rparr>, 1 \<mapsto> \<lparr>option = None\<rparr>])) =
     Inr \<lparr>missingKey = mapError, onPanic = panicNop\<rparr> \<and>
   snd (Option 0 [''onpanic=nop'', ''missingkey=error'']
       [0 \<mapsto> \<lparr>option = None\<rparr>, 1 \<mapsto> \<lparr>option = None\<rparr>]) 1 = Some \<lparr>option = None\<rparr>"
  using Option_returns_receiver [of "[0 \<mapsto> \<lparr>option = None\<rparr>, 1 \<mapsto> \<lparr>option = None\<rparr>]" 0
      "\<lparr>option = None\<rparr>" "[''onpanic=nop'', ''missingkey=error'']" "[]"]
  by (simp add: recognized_options_eq table_effect_simps initial_option_def zero_option_def)

end
